theory Spec2Isabelle
  imports Complex_Main "HOL-Library.Log_Nat" "HOL-Library.Word"
begin

section \<open>Platform values\<close>

text \<open>
  The coordinator (\<^verbatim>\<open>server.js\<close>, \<^verbatim>\<open>server-mtls.js\<close>, \<^verbatim>\<open>connectionManager.js\<close>,
  \<^verbatim>\<open>downloadManager.js\<close>) and the agent script are JavaScript on Node.
  A \<^verbatim>\<open>Buffer\<close> is a list of bytes, a WebSocket object is identified by a number, and
  what the platform supplies to one call is the record \<open>env\<close>: the clock, the fresh
  uuid, whether the Redis commands and the file write of that call succeed, the
  \<^verbatim>\<open>message\<close> of an error of each kind thrown in it (\<open>error_text\<close>), the absolute
  directory \<^verbatim>\<open>path.join(__dirname, '../downloads')\<close> that the constructor computed
  (\<open>downloadDir\<close>), and Node's \<^verbatim>\<open>path.join\<close>.
  A call that can throw returns a \<open>result\<close> together with the state it leaves behind,
  since the JavaScript mutates its maps before the awaited call that may reject.
\<close>

type_synonym byte = "8 word"
type_synonym buffer = "byte list"
type_synonym ws = nat

datatype js_error = TypeError | RedisError | IOError

datatype 'a result = Returned 'a | Threw js_error

record env =
  now :: nat
  uuid :: string
  redis_ok :: bool
  fs_ok :: bool
  error_text :: "js_error \<Rightarrow> string"
  downloadDir :: string
  path_join :: "string \<Rightarrow> string \<Rightarrow> string"

subsection \<open>Numbers\<close>

text \<open>
  \<^verbatim>\<open>Math.round((download.receivedChunks / download.totalChunks) * 100)\<close> is computed on
  IEEE binary64 numbers: the quotient is rounded to the nearest double (ties to even), so
  is the product, and \<^verbatim>\<open>Math.round\<close> then takes the nearest integer, ties upwards.
  \<open>fl\<close> is that rounding to 53 significant bits on the rationals (exponent range not
  bounded: the counts are far from overflow and underflow), \<open>binade x\<close> the exponent
  \<open>\<lfloor>log\<^sub>2 x\<rfloor>\<close> of a positive \<open>x\<close>.
\<close>

datatype js_number = Finite int | Infinity | NaN

definition pow2 :: "int \<Rightarrow> rat" where
  "pow2 e = (if 0 \<le> e then 2 ^ nat e else 1 / 2 ^ nat (- e))"

definition round_even :: "rat \<Rightarrow> int" where
  "round_even m =
     (let f = \<lfloor>m\<rfloor>; d = m - of_int f
      in if d < 1 / 2 then f else if 1 / 2 < d then f + 1 else if even f then f else f + 1)"

definition binade :: "rat \<Rightarrow> int" where
  "binade x =
     (case quotient_of x of (p, q) \<Rightarrow>
        (let a = bitlen p - bitlen q in if pow2 a \<le> x then a else a - 1))"

definition fl :: "rat \<Rightarrow> rat" where
  "fl x =
     (if x = 0 then 0
      else (let u = pow2 (binade \<bar>x\<bar> - 52)
            in sgn x * of_int (round_even (\<bar>x\<bar> / u)) * u))"

definition Math_round :: "rat \<Rightarrow> int" where
  "Math_round y = \<lfloor>y + 1 / 2\<rfloor>"

text \<open>
  The progress expression of \<^verbatim>\<open>handleChunk\<close>. \<^verbatim>\<open>totalChunks\<close> is \<^verbatim>\<open>undefined\<close> until the
  metadata arrives (the quotient is then \<^verbatim>\<open>NaN\<close>), and a positive count divided by zero
  is \<^verbatim>\<open>Infinity\<close>.
\<close>

definition progress_of :: "nat \<Rightarrow> nat option \<Rightarrow> js_number" where
  "progress_of r t =
     (case t of
        None \<Rightarrow> NaN
      | Some n \<Rightarrow>
          if n = 0 then (if r = 0 then NaN else Infinity)
          else Finite (Math_round (fl (fl (of_nat r / of_nat n) * 100))))"

subsection \<open>Arrays with holes and \<^verbatim>\<open>Buffer.concat\<close>\<close>

text \<open>
  \<^verbatim>\<open>download.chunks[chunkIndex] = b\<close> on a JavaScript array: an index beyond the end
  extends the array, and the slots in between are holes (\<open>None\<close>).
  \<^verbatim>\<open>Buffer.concat\<close> reads \<^verbatim>\<open>list[i].length\<close> of every slot and so throws a
  \<^verbatim>\<open>TypeError\<close> on a hole (\<open>None\<close> below).
\<close>

definition array_set :: "'a option list \<Rightarrow> nat \<Rightarrow> 'a \<Rightarrow> 'a option list" where
  "array_set xs i v =
     (if i < length xs then xs[i := Some v]
      else xs @ replicate (i - length xs) None @ [Some v])"

fun Buffer_concat :: "buffer option list \<Rightarrow> buffer option" where
  "Buffer_concat [] = Some []"
| "Buffer_concat (None # bs) = None"
| "Buffer_concat (Some b # bs) =
     (case Buffer_concat bs of None \<Rightarrow> None | Some r \<Rightarrow> Some (b @ r))"

section \<open>Coordinator state\<close>

datatype status = Initiated | Downloading | Completed | Failed

text \<open>
  One entry of \<^verbatim>\<open>DownloadManager.downloads\<close>. A field the JavaScript has not assigned
  yet is \<open>None\<close>; \<open>chunks\<close> is \<open>None\<close> after \<^verbatim>\<open>delete download.chunks\<close>.
\<close>

record download =
  downloadId :: string
  clientId :: string
  status :: status
  startTime :: nat
  chunks :: "buffer option list option"
  progress :: js_number
  fileName :: "string option"
  fileSize :: "nat option"
  totalChunks :: "nat option"
  receivedChunks :: "nat option"
  endTime :: "nat option"
  filePath :: "string option"
  duration :: "int option"
  error :: "string option"

datatype out_message =
    Registered string string bool bool
  | DownloadRequest string string
  | ErrorOut string

text \<open>
  The state of the coordinator process and of what it writes to:
  \<open>connections\<close> is \<^verbatim>\<open>ConnectionManager.connections\<close>, \<open>downloads\<close> is
  \<^verbatim>\<open>DownloadManager.downloads\<close>; \<open>connected_clients\<close> is the Redis hash of that name
  (identity to the registration time), \<open>redis_strings\<close> the Redis string keys with the
  time in milliseconds at which each expires, \<open>files\<close> the download directory and
  \<open>outbox\<close> the frames sent so far, with the socket each was sent on.
  The per-transfer Redis hashes \<^verbatim>\<open>download:<id>\<close> are written and never read by the
  coordinator; of those writes the state keeps only whether they succeed (\<open>redis_ok\<close>).
\<close>

record server =
  connections :: "string \<rightharpoonup> ws"
  downloads :: "string \<rightharpoonup> download"
  connected_clients :: "string \<rightharpoonup> nat"
  redis_strings :: "string \<rightharpoonup> string \<times> nat"
  files :: "string \<rightharpoonup> buffer"
  outbox :: "(ws \<times> out_message) list"

definition status_key :: "string \<Rightarrow> string" where
  "status_key cid = ''client:'' @ cid @ '':status''"

definition redis_exists :: "server \<Rightarrow> nat \<Rightarrow> string \<Rightarrow> bool" where
  "redis_exists s t k = (case redis_strings s k of None \<Rightarrow> False | Some (v, expiry) \<Rightarrow> t < expiry)"

definition send :: "ws \<Rightarrow> out_message \<Rightarrow> server \<Rightarrow> server" where
  "send w m s = s\<lparr>outbox := outbox s @ [(w, m)]\<rparr>"

section \<open>ConnectionManager\<close>

definition registerClient :: "env \<Rightarrow> string \<Rightarrow> ws \<Rightarrow> server \<Rightarrow> unit result \<times> server" where
  "registerClient e cid w s =
     (let s1 = s\<lparr>connections := (connections s)(cid \<mapsto> w)\<rparr>
      in if \<not> redis_ok e then (Threw RedisError, s1)
         else (Returned (),
               s1\<lparr>connected_clients := (connected_clients s1)(cid \<mapsto> now e),
                  redis_strings := (redis_strings s1)(status_key cid \<mapsto> (''connected'', now e + 300 * 1000))\<rparr>))"

definition unregisterClient :: "env \<Rightarrow> string \<Rightarrow> server \<Rightarrow> unit result \<times> server" where
  "unregisterClient e cid s =
     (let s1 = s\<lparr>connections := (connections s)(cid := None)\<rparr>
      in if \<not> redis_ok e then (Threw RedisError, s1)
         else (Returned (),
               s1\<lparr>connected_clients := (connected_clients s1)(cid := None),
                  redis_strings := (redis_strings s1)(status_key cid := None)\<rparr>))"

definition isClientConnected :: "env \<Rightarrow> string \<Rightarrow> server \<Rightarrow> bool result \<times> server" where
  "isClientConnected e cid s =
     (if \<not> redis_ok e then (Threw RedisError, s)
      else (Returned (connections s cid \<noteq> None \<and> connected_clients s cid \<noteq> None), s))"

definition getClientConnection :: "string \<Rightarrow> server \<Rightarrow> ws option" where
  "getClientConnection cid s = connections s cid"

section \<open>DownloadManager\<close>

text \<open>A template literal prints an unassigned field as \<^verbatim>\<open>undefined\<close>.\<close>

definition template :: "string option \<Rightarrow> string" where
  "template x = (case x of None \<Rightarrow> ''undefined'' | Some v \<Rightarrow> v)"

definition initiateDownload :: "env \<Rightarrow> string \<Rightarrow> server \<Rightarrow> string result \<times> server" where
  "initiateDownload e cid s =
     (let d = \<lparr>downloadId = uuid e, clientId = cid, status = Initiated, startTime = now e,
               chunks = Some [], progress = Finite 0, fileName = None, fileSize = None,
               totalChunks = None, receivedChunks = None, endTime = None, filePath = None,
               duration = None, error = None\<rparr>;
          s1 = s\<lparr>downloads := (downloads s)(uuid e \<mapsto> d)\<rparr>
      in if redis_ok e then (Returned (uuid e), s1) else (Threw RedisError, s1))"

definition initializeDownload ::
  "env \<Rightarrow> string \<Rightarrow> string \<Rightarrow> nat \<Rightarrow> nat \<Rightarrow> server \<Rightarrow> unit result \<times> server" where
  "initializeDownload e did name fsize n s =
     (case downloads s did of
        None \<Rightarrow> (Returned (), s)
      | Some d \<Rightarrow>
          (let d1 = d\<lparr>fileName := Some name, fileSize := Some fsize, totalChunks := Some n,
                      status := Downloading, receivedChunks := Some 0\<rparr>;
               s1 = s\<lparr>downloads := (downloads s)(did \<mapsto> d1)\<rparr>
           in if redis_ok e then (Returned (), s1) else (Threw RedisError, s1)))"

definition handleError :: "env \<Rightarrow> string \<Rightarrow> string \<Rightarrow> server \<Rightarrow> unit result \<times> server" where
  "handleError e did msg s =
     (case downloads s did of
        None \<Rightarrow> (Returned (), s)
      | Some d \<Rightarrow>
          (let d1 = d\<lparr>status := Failed, error := Some msg, endTime := Some (now e)\<rparr>;
               s1 = s\<lparr>downloads := (downloads s)(did \<mapsto> d1)\<rparr>
           in if redis_ok e then (Returned (), s1) else (Threw RedisError, s1)))"

text \<open>
  \<^verbatim>\<open>completeDownload\<close>: everything after the lookup is inside \<^verbatim>\<open>try\<close>, and the
  \<^verbatim>\<open>catch\<close> calls \<^verbatim>\<open>handleError\<close>. \<^verbatim>\<open>Buffer.concat\<close> throws when \<open>chunks\<close> has been
  deleted or has a hole, \<^verbatim>\<open>fs.writeFile\<close> when the write fails, \<^verbatim>\<open>hmset\<close> (after the
  record has been marked completed) when Redis is unreachable.
\<close>

definition completeDownload :: "env \<Rightarrow> string \<Rightarrow> server \<Rightarrow> unit result \<times> server" where
  "completeDownload e did s =
     (case downloads s did of
        None \<Rightarrow> (Returned (), s)
      | Some d \<Rightarrow>
          (let path = path_join e (downloadDir e) (clientId d @ ''_'' @ template (fileName d))
           in case (case chunks d of None \<Rightarrow> None | Some cs \<Rightarrow> Buffer_concat cs) of
                None \<Rightarrow> handleError e did (error_text e TypeError) s
              | Some fileData \<Rightarrow>
                  if \<not> fs_ok e then handleError e did (error_text e IOError) s
                  else
                    (let d1 = d\<lparr>status := Completed, endTime := Some (now e),
                                filePath := Some path,
                                duration := Some (int (now e) - int (startTime d)),
                                chunks := None\<rparr>;
                         s1 = s\<lparr>files := (files s)(path \<mapsto> fileData),
                                downloads := (downloads s)(did \<mapsto> d1)\<rparr>
                     in if redis_ok e then (Returned (), s1)
                        else handleError e did (error_text e RedisError) s1)))"

text \<open>
  \<^verbatim>\<open>handleChunk\<close>; \<open>dec\<close> is \<^verbatim>\<open>Buffer.from(data, 'base64')\<close>, Node's decoder.
  Assigning into \<^verbatim>\<open>download.chunks\<close> after it has been deleted throws a \<^verbatim>\<open>TypeError\<close>
  before anything else is changed.
\<close>

definition handleChunk ::
  "(string \<Rightarrow> buffer) \<Rightarrow> env \<Rightarrow> string \<Rightarrow> nat \<Rightarrow> string \<Rightarrow> bool \<Rightarrow> server \<Rightarrow> unit result \<times> server" where
  "handleChunk dec e did chunkIndex dat isLast s =
     (case downloads s did of
        None \<Rightarrow> (Returned (), s)
      | Some d \<Rightarrow>
          (case chunks d of
             None \<Rightarrow> (Threw TypeError, s)
           | Some cs \<Rightarrow>
               (let r = (case receivedChunks d of None \<Rightarrow> 0 | Some n \<Rightarrow> n) + 1;
                    d1 = d\<lparr>chunks := Some (array_set cs chunkIndex (dec dat)),
                           receivedChunks := Some r,
                           progress := progress_of r (totalChunks d)\<rparr>;
                    s1 = s\<lparr>downloads := (downloads s)(did \<mapsto> d1)\<rparr>
                in if isLast then completeDownload e did s1 else (Returned (), s1))))"

definition getDownloadStatus :: "string \<Rightarrow> server \<Rightarrow> download option" where
  "getDownloadStatus did s = downloads s did"

section \<open>Tunnel protocol handler\<close>

text \<open>
  One accepted connection: its socket, the closure variable \<^verbatim>\<open>clientId\<close> (initially
  \<^verbatim>\<open>null\<close>) and whether the handler has called \<^verbatim>\<open>ws.close()\<close>.
  A frame that does not parse is \<open>Malformed\<close>; the handler catches every exception of a
  message and goes on.
\<close>

record conn =
  sock :: ws
  conn_clientId :: "string option"
  closing :: bool

datatype message =
    Register string
  | FileChunk string nat string bool
  | FileMetadata string string nat nat
  | ErrorMessage string string
  | Unknown
  | Malformed

definition accept :: "ws \<Rightarrow> conn" where
  "accept w = \<lparr>sock = w, conn_clientId = None, closing = False\<rparr>"

fun forward :: "(string \<Rightarrow> buffer) \<Rightarrow> env \<Rightarrow> message \<Rightarrow> server \<Rightarrow> server" where
  "forward dec e (FileChunk did i dat l) s = snd (handleChunk dec e did i dat l s)"
| "forward dec e (FileMetadata did name fsize n) s =
     snd (initializeDownload e did name fsize n s)"
| "forward dec e (ErrorMessage did msg) s = snd (handleError e did msg s)"
| "forward dec e m s = s"

text \<open>\<^verbatim>\<open>server.js\<close>: the handler without transport identity.\<close>

fun on_message :: "(string \<Rightarrow> buffer) \<Rightarrow> env \<Rightarrow> conn \<Rightarrow> message \<Rightarrow> server \<Rightarrow> conn \<times> server" where
  "on_message dec e c (Register cid) s =
     (let c1 = c\<lparr>conn_clientId := Some cid\<rparr>
      in case registerClient e cid (sock c) s of
           (Threw x, s1) \<Rightarrow> (c1, s1)
         | (Returned u, s1) \<Rightarrow>
             (c1, send (sock c) (Registered cid ''Successfully registered'' False False) s1))"
| "on_message dec e c m s = (c, forward dec e m s)"

text \<open>
  \<^verbatim>\<open>server-mtls.js\<close>: \<open>cn\<close> is \<^verbatim>\<open>clientIdFromCert\<close>, the subject of the certificate the
  transport verified when it accepted the connection.
\<close>

fun on_message_mtls ::
  "string \<Rightarrow> (string \<Rightarrow> buffer) \<Rightarrow> env \<Rightarrow> conn \<Rightarrow> message \<Rightarrow> server \<Rightarrow> conn \<times> server" where
  "on_message_mtls cn dec e c (Register cid) s =
     (let c1 = c\<lparr>conn_clientId := Some cid\<rparr>
      in if cid \<noteq> cn
         then (c1\<lparr>closing := True\<rparr>,
               send (sock c) (ErrorOut ''ClientId does not match certificate CN'') s)
         else case registerClient e cid (sock c) s of
                (Threw x, s1) \<Rightarrow> (c1, s1)
              | (Returned u, s1) \<Rightarrow>
                  (c1, send (sock c)
                         (Registered cid ''Successfully registered with mTLS'' True True) s1))"
| "on_message_mtls cn dec e c m s = (c, forward dec e m s)"

text \<open>
  The close handler, the same in both servers: \<^verbatim>\<open>if (clientId)\<close> is false for
  \<^verbatim>\<open>null\<close> and for the empty string.
\<close>

definition on_close :: "env \<Rightarrow> conn \<Rightarrow> server \<Rightarrow> server" where
  "on_close e c s =
     (case conn_clientId c of
        None \<Rightarrow> s
      | Some cid \<Rightarrow> if cid = [] then s else snd (unregisterClient e cid s))"

definition is_register :: "message \<Rightarrow> bool" where
  "is_register m = (case m of Register cid \<Rightarrow> True | _ \<Rightarrow> False)"

text \<open>
  The frames of one connection, each handled to its end before the next. The listeners
  of the code are \<^verbatim>\<open>async\<close>: a handler suspended at an \<^verbatim>\<open>await\<close> (the Redis writes,
  \<^verbatim>\<open>fs.writeFile\<close>) lets the next frame start, and that interleaving is not part of
  \<open>receive\<close>. A chunk message that is not flagged \<^verbatim>\<open>isLast\<close> reaches no \<^verbatim>\<open>await\<close>.
\<close>

fun receive ::
  "(string \<Rightarrow> buffer) \<Rightarrow> conn \<Rightarrow> (env \<times> message) list \<Rightarrow> server \<Rightarrow> conn \<times> server" where
  "receive dec c [] s = (c, s)"
| "receive dec c ((e, m) # ms) s =
     (case on_message dec e c m s of (c1, s1) \<Rightarrow> receive dec c1 ms s1)"

section \<open>HTTP: triggering a transfer\<close>

datatype body = ErrorBody string | DownloadInitiated string

datatype response = Response nat bool body

text \<open>
  \<^verbatim>\<open>POST /api/download\<close> of \<^verbatim>\<open>server.js\<close>; the argument is \<^verbatim>\<open>req.body.clientId\<close>,
  \<open>None\<close> when the field is absent. \<^verbatim>\<open>!clientId\<close> holds for an absent field and for
  the empty string.
\<close>

definition post_download :: "env \<Rightarrow> string option \<Rightarrow> server \<Rightarrow> response \<times> server" where
  "post_download e b s =
     (case b of
        None \<Rightarrow> (Response 400 False (ErrorBody ''clientId is required''), s)
      | Some cid \<Rightarrow>
          if cid = [] then (Response 400 False (ErrorBody ''clientId is required''), s)
          else
            (case isClientConnected e cid s of
               (Threw x, s1) \<Rightarrow> (Response 500 False (ErrorBody (error_text e x)), s1)
             | (Returned False, s1) \<Rightarrow>
                 (Response 404 False (ErrorBody (''Client '' @ cid @ '' is not connected'')), s1)
             | (Returned True, s1) \<Rightarrow>
                 (case initiateDownload e cid s1 of
                    (Threw x, s2) \<Rightarrow> (Response 500 False (ErrorBody (error_text e x)), s2)
                  | (Returned did, s2) \<Rightarrow>
                      (case getClientConnection cid s2 of
                         None \<Rightarrow> (Response 500 False (ErrorBody (error_text e TypeError)), s2)
                       | Some w \<Rightarrow>
                           (Response 200 True (DownloadInitiated did),
                            send w (DownloadRequest did ''/data/sample-file.txt'') s2)))))"

section \<open>Agent: reconnection\<close>

definition MAX_RECONNECT_ATTEMPTS :: nat where
  "MAX_RECONNECT_ATTEMPTS = 5"

datatype reconnect = Reconnect nat | Exit nat

text \<open>
  \<^verbatim>\<open>attemptReconnect\<close> on the counter \<^verbatim>\<open>reconnectAttempts\<close>: the action taken (a
  reconnection scheduled after so many milliseconds, or the process exit code) and the
  new counter.
\<close>

definition attemptReconnect :: "nat \<Rightarrow> reconnect \<times> nat" where
  "attemptReconnect reconnectAttempts =
     (if reconnectAttempts < MAX_RECONNECT_ATTEMPTS
      then (Reconnect (min (1000 * 2 ^ (reconnectAttempts + 1)) 30000), reconnectAttempts + 1)
      else (Exit 1, reconnectAttempts))"

text \<open>
  The tunnel is lost and no reconnection succeeds: every failed \<^verbatim>\<open>connect\<close> ends in a
  \<^verbatim>\<open>close\<close> event, which calls \<^verbatim>\<open>attemptReconnect\<close> again. \<open>failing n k\<close> lists the
  actions of at most \<open>n\<close> such calls from the counter \<open>k\<close>, up to the exit.
\<close>

fun failing :: "nat \<Rightarrow> nat \<Rightarrow> reconnect list" where
  "failing 0 k = []"
| "failing (Suc n) k =
     (case attemptReconnect k of
        (Exit c, k1) \<Rightarrow> [Exit c]
      | (Reconnect d, k1) \<Rightarrow> Reconnect d # failing n k1)"

section \<open>Operations and message runs\<close>

text \<open>
  The four operations of the transfer coordinator on one transfer id, as one datatype, and
  \<open>stage\<close>, the position of a status in
  \<open>initiated \<rightarrow> downloading \<rightarrow> {completed, failed}\<close>.
\<close>

datatype operation =
    OnMetadata string nat nat
  | OnChunk nat string bool
  | Complete
  | Fail string

fun apply_op :: "(string \<Rightarrow> buffer) \<Rightarrow> env \<Rightarrow> string \<Rightarrow> operation \<Rightarrow> server \<Rightarrow> server" where
  "apply_op dec e did (OnMetadata name fsize n) s = snd (initializeDownload e did name fsize n s)"
| "apply_op dec e did (OnChunk i dat l) s = snd (handleChunk dec e did i dat l s)"
| "apply_op dec e did Complete s = snd (completeDownload e did s)"
| "apply_op dec e did (Fail msg) s = snd (handleError e did msg s)"

fun stage :: "status \<Rightarrow> nat" where
  "stage Initiated = 0"
| "stage Downloading = 1"
| "stage Completed = 2"
| "stage Failed = 2"

text \<open>
  A chunk message as it arrives: the environment of its handling, \<^verbatim>\<open>chunkIndex\<close>,
  \<^verbatim>\<open>data\<close> and \<^verbatim>\<open>isLast\<close>. \<open>chunk_frames\<close> are the frames of such messages for one
  transfer, \<open>stored\<close> the chunk array after the assignments
  \<^verbatim>\<open>download.chunks[chunkIndex] = Buffer.from(data, 'base64')\<close> of the messages in
  arrival order, and \<open>received_count\<close> is \<^verbatim>\<open>download.receivedChunks || 0\<close>.
\<close>

type_synonym chunk = "env \<times> nat \<times> string \<times> bool"

definition chunk_frames :: "string \<Rightarrow> chunk list \<Rightarrow> (env \<times> message) list" where
  "chunk_frames did ms = map (\<lambda>(e, i, dat, l). (e, FileChunk did i dat l)) ms"

fun stored :: "(string \<Rightarrow> buffer) \<Rightarrow> chunk list \<Rightarrow> buffer option list \<Rightarrow> buffer option list" where
  "stored dec [] cs = cs"
| "stored dec ((e, i, dat, l) # ms) cs = stored dec ms (array_set cs i (dec dat))"

definition chunk_index :: "chunk \<Rightarrow> nat" where
  "chunk_index m = fst (snd m)"

definition chunk_data :: "chunk \<Rightarrow> string" where
  "chunk_data m = fst (snd (snd m))"

definition chunk_last :: "chunk \<Rightarrow> bool" where
  "chunk_last m = snd (snd (snd m))"

definition received_count :: "download \<Rightarrow> nat" where
  "received_count d = (case receivedChunks d of None \<Rightarrow> 0 | Some k \<Rightarrow> k)"

section \<open>A base64 decoder for the examples\<close>

text \<open>
  The theorems about \<^verbatim>\<open>handleChunk\<close> hold for every decoder \<open>dec\<close>. The examples
  decode as \<^verbatim>\<open>Buffer.from(data, 'base64')\<close> does on the strings the agent sends: the
  standard alphabet and the URL-safe \<^verbatim>\<open>-\<close> and \<^verbatim>\<open>_\<close>, reading up to the padding and
  passing over white space and any other character.
\<close>

definition base64_alphabet :: string where
  "base64_alphabet = ''ABCDEFGHIJKLMNOPQRSTUVWXYZabcdefghijklmnopqrstuvwxyz0123456789+/''"

fun index_of :: "'a \<Rightarrow> 'a list \<Rightarrow> nat option" where
  "index_of x [] = None"
| "index_of x (y # ys) = (if x = y then Some 0 else map_option Suc (index_of x ys))"

definition sextet :: "char \<Rightarrow> nat option" where
  "sextet c =
     (if c = CHR ''-'' then Some 62 else if c = CHR ''_'' then Some 63
      else index_of c base64_alphabet)"

fun sextets :: "string \<Rightarrow> nat list" where
  "sextets [] = []"
| "sextets (c # cs) =
     (if c = CHR ''='' then []
      else case sextet c of None \<Rightarrow> sextets cs | Some v \<Rightarrow> v # sextets cs)"

fun octets :: "nat list \<Rightarrow> buffer" where
  "octets (a # b # c # d # r) =
     [of_nat (a * 4 + b div 16), of_nat ((b mod 16) * 16 + c div 4), of_nat ((c mod 4) * 64 + d)]
     @ octets r"
| "octets [a, b, c] = [of_nat (a * 4 + b div 16), of_nat ((b mod 16) * 16 + c div 4)]"
| "octets [a, b] = [of_nat (a * 4 + b div 16)]"
| "octets r = []"

definition base64 :: "string \<Rightarrow> buffer" where
  "base64 x = octets (sextets x)"

section \<open>Starting state and healthy environments\<close>

text \<open>
  The coordinator as its constructors leave it (\<^verbatim>\<open>new Map()\<close> twice), with an empty
  Redis and download directory; and an environment at time \<open>t\<close> in which Redis and the
  file system work and \<^verbatim>\<open>uuidv4()\<close> yields \<open>u\<close>. Its download directory is
  \<^verbatim>\<open>/app/downloads\<close>, and its \<open>path_join\<close> is what \<^verbatim>\<open>path.join\<close> returns for a
  normalised directory and a file name without separators or dot segments.
\<close>

definition initial :: server where
  "initial =
     \<lparr>connections = Map.empty, downloads = Map.empty, connected_clients = Map.empty,
      redis_strings = Map.empty, files = Map.empty, outbox = []\<rparr>"

definition healthy :: "nat \<Rightarrow> string \<Rightarrow> env" where
  "healthy t u =
     \<lparr>now = t, uuid = u, redis_ok = True, fs_ok = True, error_text = (\<lambda>x. ''error''),
      downloadDir = ''/app/downloads'', path_join = (\<lambda>a b. a @ ''/'' @ b)\<rparr>"

text \<open>
  The running example: identity \<open>site-1\<close>, transfer \<open>T1\<close> initiated for it, and the
  metadata of a file of \<open>n\<close> chunks received.
\<close>

definition started :: "nat \<Rightarrow> nat \<Rightarrow> server" where
  "started fsize n =
     snd (initializeDownload (healthy 2 ''T1'') ''T1'' ''sample-file.txt'' fsize n
       (snd (initiateDownload (healthy 1 ''T1'') ''site-1'' initial)))"

section \<open>Rounding to doubles\<close>

text \<open>
  What makes \<open>fl\<close> the rounding of binary64 in the range of its use: \<open>binade x\<close> is the
  exponent of \<open>x\<close>, the result of \<open>fl\<close> is a significand between \<open>2\<^sup>5\<^sup>2\<close> and \<open>2\<^sup>5\<^sup>3\<close>
  times \<open>2\<close> to the exponent less 52, and it is within half a unit in the last place
  of \<open>x\<close>; ties go to the even significand by the definition of \<open>round_even\<close>.
  One tenth rounds to the double \<^verbatim>\<open>0x3FB999999999999A\<close>.
\<close>

lemma pow2_powi: "pow2 e = 2 powi e"
  by (simp add: pow2_def power_int_def field_simps)

lemma pow2_pos: "0 < pow2 e"
  by (simp add: pow2_powi)

lemma pow2_diff: "pow2 (a - b) = pow2 a / pow2 b"
  by (simp add: pow2_powi power_int_diff)

lemma pow2_nat: "0 \<le> e \<Longrightarrow> pow2 e = 2 ^ nat e"
  by (simp add: pow2_def)

lemma binade_bounds:
  assumes "0 < x"
  shows "pow2 (binade x) \<le> x \<and> x < pow2 (binade x + 1)"
proof -
  obtain p q where pq: "quotient_of x = (p, q)"
    by (cases "quotient_of x")
  have q: "0 < q"
    using quotient_of_denom_pos [OF pq] .
  have x: "x = of_int p / of_int q"
    using quotient_of_div [OF pq] .
  have p: "0 < p"
    using assms q by (simp add: x zero_less_divide_iff)
  define a where "a = bitlen p - bitlen q"
  have bp: "1 \<le> bitlen p" and bq: "1 \<le> bitlen q"
    using p q bitlen_eq_zero_iff [of p] bitlen_eq_zero_iff [of q] bitlen_nonneg [of p]
      bitlen_nonneg [of q] by linarith+
  have "(of_int (2 ^ nat (bitlen p - 1)) :: rat) \<le> of_int p"
    using bitlen_bounds [OF p] by (simp only: of_int_le_iff)
  then have p_lo: "pow2 (bitlen p - 1) \<le> of_int p"
    using bp by (simp add: pow2_nat)
  have "(of_int p :: rat) < of_int (2 ^ nat (bitlen p))"
    using bitlen_bounds [OF p] by (simp only: of_int_less_iff)
  then have p_hi: "of_int p < pow2 (bitlen p)"
    using bp by (simp add: pow2_nat)
  have "(of_int (2 ^ nat (bitlen q - 1)) :: rat) \<le> of_int q"
    using bitlen_bounds [OF q] by (simp only: of_int_le_iff)
  then have q_lo: "pow2 (bitlen q - 1) \<le> of_int q"
    using bq by (simp add: pow2_nat)
  have "(of_int q :: rat) < of_int (2 ^ nat (bitlen q))"
    using bitlen_bounds [OF q] by (simp only: of_int_less_iff)
  then have q_hi: "of_int q < pow2 (bitlen q)"
    using bq by (simp add: pow2_nat)
  have qr: "(0::rat) < of_int q"
    using q by simp
  have lo: "pow2 (a - 1) < x"
  proof -
    have "pow2 (a - 1) = pow2 (bitlen p - 1) / pow2 (bitlen q)"
      by (simp add: a_def flip: pow2_diff) (simp add: algebra_simps)
    also have "\<dots> \<le> of_int p / pow2 (bitlen q)"
      using p_lo pow2_pos [of "bitlen q"] by (simp add: divide_right_mono)
    also have "\<dots> < of_int p / of_int q"
      using q_hi qr p by (simp add: divide_strict_left_mono)
    finally show ?thesis by (simp add: x)
  qed
  have hi: "x < pow2 (a + 1)"
  proof -
    have "x < pow2 (bitlen p) / of_int q"
      using p_hi qr by (simp add: x divide_strict_right_mono)
    also have "\<dots> \<le> pow2 (bitlen p) / pow2 (bitlen q - 1)"
      using q_lo pow2_pos [of "bitlen q - 1"] pow2_pos [of "bitlen p"]
      by (simp add: divide_left_mono)
    also have "\<dots> = pow2 (a + 1)"
      by (simp add: a_def flip: pow2_diff) (simp add: algebra_simps)
    finally show ?thesis .
  qed
  have b: "binade x = (if pow2 a \<le> x then a else a - 1)"
    by (simp add: binade_def pq a_def)
  show ?thesis
  proof (cases "pow2 a \<le> x")
    case True
    then show ?thesis using hi by (simp add: b)
  next
    case False
    then show ?thesis using lo by (simp add: b)
  qed
qed

lemma round_even_close: "\<bar>of_int (round_even m) - m\<bar> \<le> 1 / 2"
proof -
  have "0 \<le> m - of_int \<lfloor>m\<rfloor>" "m - of_int \<lfloor>m\<rfloor> < 1"
    by linarith+
  then show ?thesis
    by (auto simp: round_even_def Let_def)
qed

lemma round_even_mono: "of_int k \<le> m \<Longrightarrow> k \<le> round_even m"
proof -
  assume "of_int k \<le> m"
  then have "k \<le> \<lfloor>m\<rfloor>"
    by (simp add: le_floor_iff)
  then show ?thesis
    by (auto simp: round_even_def Let_def)
qed

lemma round_even_le: "m \<le> of_int k \<Longrightarrow> round_even m \<le> k"
proof -
  assume a: "m \<le> of_int k"
  have f: "\<lfloor>m\<rfloor> \<le> k"
    using a by (metis floor_mono floor_of_int)
  show ?thesis
  proof (cases "of_int \<lfloor>m\<rfloor> = m")
    case True
    then have "m - of_int \<lfloor>m\<rfloor> = 0" by linarith
    then show ?thesis using f by (simp add: round_even_def Let_def)
  next
    case False
    then have "of_int \<lfloor>m\<rfloor> < m"
      using of_int_floor_le [of m] by linarith
    then have "of_int \<lfloor>m\<rfloor> < (of_int k :: rat)"
      using a by linarith
    then have "\<lfloor>m\<rfloor> < k"
      by simp
    then show ?thesis
      by (auto simp: round_even_def Let_def)
  qed
qed

lemma fl_pos:
  assumes "0 < x"
  shows "fl x = of_int (round_even (x / pow2 (binade x - 52))) * pow2 (binade x - 52)"
  using assms by (simp add: fl_def Let_def)

lemma fl_nearest:
  assumes "0 < x"
  shows "\<bar>fl x - x\<bar> \<le> pow2 (binade x - 52) / 2"
proof -
  define u where "u = pow2 (binade x - 52)"
  have u: "0 < u"
    by (simp add: u_def pow2_pos)
  have "fl x - x = (of_int (round_even (x / u)) - x / u) * u"
    using u by (simp add: fl_pos [OF assms] u_def [symmetric] algebra_simps)
  then have "\<bar>fl x - x\<bar> = \<bar>of_int (round_even (x / u)) - x / u\<bar> * u"
    using u by (simp add: abs_mult)
  also have "\<dots> \<le> 1 / 2 * u"
    using round_even_close [of "x / u"] u by (intro mult_right_mono) simp_all
  finally show ?thesis
    by (simp add: u_def)
qed

lemma fl_significand:
  assumes "0 < x"
  shows "2 ^ 52 \<le> round_even (x / pow2 (binade x - 52)) \<and>
     round_even (x / pow2 (binade x - 52)) \<le> 2 ^ 53"
proof -
  define u where "u = pow2 (binade x - 52)"
  have u: "0 < u"
    by (simp add: u_def pow2_pos)
  have e: "pow2 (binade x) = 2 ^ 52 * u" "pow2 (binade x + 1) = 2 ^ 53 * u"
    by (simp_all add: u_def pow2_powi power_int_diff power_int_add)
  have "2 ^ 52 * u \<le> x" "x < 2 ^ 53 * u"
    using binade_bounds [OF assms] by (simp_all add: e)
  then have "2 ^ 52 \<le> x / u" "x / u \<le> 2 ^ 53"
    using u by (simp_all add: pos_le_divide_eq pos_divide_le_eq)
  then have "of_int (2 ^ 52) \<le> x / u" "x / u \<le> of_int (2 ^ 53)"
    by simp_all
  then show ?thesis
    unfolding u_def [symmetric] by (intro conjI round_even_mono round_even_le)
qed

lemma fl_tenth: "fl (1 / 10) = 3602879701896397 / 2 ^ 55"
  by code_simp

section \<open>Reconnection backoff of the agent\<close>

lemma failing_step:
  "k < 5 \<Longrightarrow>
     failing (Suc n) k = Reconnect (min (1000 * 2 ^ Suc k) 30000) # failing n (Suc k)"
  by (simp add: attemptReconnect_def MAX_RECONNECT_ATTEMPTS_def)

lemma failing_exit: "\<not> k < 5 \<Longrightarrow> failing (Suc n) k = [Exit 1]"
  by (simp add: attemptReconnect_def MAX_RECONNECT_ATTEMPTS_def)

lemma failing_six:
  "failing (Suc (Suc (Suc (Suc (Suc (Suc m)))))) 0 =
     [Reconnect 2000, Reconnect 4000, Reconnect 8000, Reconnect 16000, Reconnect 30000, Exit 1]"
  by (simp add: failing_step failing_exit del: failing.simps)

lemma failing_five:
  "failing (Suc (Suc (Suc (Suc (Suc 0))))) 0 =
     [Reconnect 2000, Reconnect 4000, Reconnect 8000, Reconnect 16000, Reconnect 30000]"
  by (simp add: failing_step del: failing.simps(2))

text \<open>
  C5, as the code has it: the counter is incremented before the delay is computed, so the
  delays of the five attempts are 2 s, 4 s, 8 s, 16 s and 30 s (the fifth is 32 s capped
  at 30 s), and the call after the fifth failed attempt exits with status 1; however many
  further failures there would be, nothing follows the exit.
\<close>

theorem reconnect_backoff:
  "6 \<le> n \<Longrightarrow>
     failing n 0 =
       [Reconnect 2000, Reconnect 4000, Reconnect 8000, Reconnect 16000, Reconnect 30000, Exit 1]"
proof -
  assume "6 \<le> n"
  then obtain m where n: "n = 6 + m"
    using le_Suc_ex by blast
  have "6 + m = Suc (Suc (Suc (Suc (Suc (Suc m)))))"
    by simp
  then show ?thesis
    unfolding n by (simp only: failing_six)
qed

theorem reconnect_backoff_witness:
  "failing 6 0 =
     [Reconnect 2000, Reconnect 4000, Reconnect 8000, Reconnect 16000, Reconnect 30000, Exit 1]"
  using reconnect_backoff [of 6] by simp

text \<open>
  C5 as the specification words it (delays of 1 s, 2 s, 4 s, 8 s, 16 s over the five
  attempts) is not what the agent does.
\<close>

theorem reconnect_delays_counterexample:
  "failing 5 0 \<noteq>
     [Reconnect 1000, Reconnect 2000, Reconnect 4000, Reconnect 8000, Reconnect 16000]"
proof -
  have "(5::nat) = Suc (Suc (Suc (Suc (Suc 0))))"
    by simp
  then have "failing 5 0 =
      [Reconnect 2000, Reconnect 4000, Reconnect 8000, Reconnect 16000, Reconnect 30000]"
    by (simp only: failing_five)
  then show ?thesis
    by simp
qed

section \<open>Session registry\<close>

lemma registerClient_connections:
  "connections (snd (registerClient e cid w s)) = (connections s)(cid \<mapsto> w)"
  by (simp add: registerClient_def Let_def)

lemma unregisterClient_connections:
  "connections (snd (unregisterClient e cid s)) = (connections s)(cid := None)"
  by (simp add: unregisterClient_def Let_def)

lemma unregisterClient_remote:
  "redis_ok e \<Longrightarrow>
     connected_clients (snd (unregisterClient e cid s)) = (connected_clients s)(cid := None) \<and>
     redis_strings (snd (unregisterClient e cid s)) = (redis_strings s)(status_key cid := None)"
  by (simp add: unregisterClient_def Let_def)

text \<open>
  C9: an identity registered with handle \<open>w1\<close> and then again with a new handle \<open>w2\<close>
  has exactly the session with \<open>w2\<close>: the local map is the one before both registrations
  with the identity bound to \<open>w2\<close>, and \<open>w1\<close>, when no other identity held it, is in no
  entry of the registry any more. This holds whether or not the Redis writes succeed.
\<close>

theorem register_twice_last_wins:
  assumes "w1 \<noteq> w2" and "\<forall>j. j \<noteq> cid \<longrightarrow> connections s j \<noteq> Some w1"
  shows "getClientConnection cid
       (snd (registerClient e2 cid w2 (snd (registerClient e1 cid w1 s)))) = Some w2 \<and>
     connections (snd (registerClient e2 cid w2 (snd (registerClient e1 cid w1 s)))) =
       (connections s)(cid \<mapsto> w2) \<and>
     (\<forall>j. connections (snd (registerClient e2 cid w2 (snd (registerClient e1 cid w1 s)))) j
        \<noteq> Some w1)"
  using assms by (simp add: getClientConnection_def registerClient_connections)

theorem register_twice_last_wins_witness:
  "getClientConnection ''site-1''
     (snd (registerClient (healthy 5 ''u'') ''site-1'' 22
        (snd (registerClient (healthy 0 ''u'') ''site-1'' 11 initial)))) = Some 22 \<and>
   (\<forall>j. connections
      (snd (registerClient (healthy 5 ''u'') ''site-1'' 22
         (snd (registerClient (healthy 0 ''u'') ''site-1'' 11 initial)))) j \<noteq> Some 11)"
proof -
  have a: "(11::nat) \<noteq> 22"
    by simp
  have b: "\<forall>j. j \<noteq> ''site-1'' \<longrightarrow> connections initial j \<noteq> Some 11"
    by (simp add: initial_def)
  show ?thesis
    using register_twice_last_wins [OF a b, of "healthy 5 ''u''" "healthy 0 ''u''"] by blast
qed

text \<open>
  C3, as the code has it: \<^verbatim>\<open>isClientConnected\<close> returns true exactly when Redis answers,
  the local map holds a handle for the identity and the identity is a field of the hash
  \<^verbatim>\<open>connected_clients\<close>, which carries no time-to-live. The key
  \<^verbatim>\<open>client:<id>:status\<close> written with \<^verbatim>\<open>EX 300\<close> is never read: the answer is the same
  whatever the string keys of Redis hold. The call changes nothing.
\<close>

theorem isClientConnected_reads_hash:
  "(fst (isClientConnected e cid s) = Returned True) =
     (redis_ok e \<and> connections s cid \<noteq> None \<and> connected_clients s cid \<noteq> None) \<and>
   fst (isClientConnected e cid (s\<lparr>redis_strings := r\<rparr>)) = fst (isClientConnected e cid s) \<and>
   snd (isClientConnected e cid s) = s"
  by (simp add: isClientConnected_def)

theorem isClientConnected_reads_hash_witness:
  "fst (isClientConnected (healthy 1000 ''u'') ''site-1''
     (snd (registerClient (healthy 0 ''u'') ''site-1'' 7 initial))) = Returned True"
  using isClientConnected_reads_hash [of "healthy 1000 ''u''" "''site-1''"
      "snd (registerClient (healthy 0 ''u'') ''site-1'' 7 initial)"]
  by (simp add: registerClient_def healthy_def initial_def Let_def)

text \<open>
  C3 as the specification words it fails once the marker has expired: \<open>site-1\<close>
  registers at time 0, and 400 seconds later, the marker written with a time-to-live of
  300 seconds being gone, \<^verbatim>\<open>isClientConnected\<close> still returns true.
\<close>

theorem liveness_marker_counterexample:
  "fst (isClientConnected (healthy 400000 ''u'') ''site-1''
     (snd (registerClient (healthy 0 ''u'') ''site-1'' 7 initial))) = Returned True \<and>
   \<not> redis_exists (snd (registerClient (healthy 0 ''u'') ''site-1'' 7 initial)) 400000
       (status_key ''site-1'')"
  by (simp add: isClientConnected_def registerClient_def healthy_def initial_def
      redis_exists_def Let_def)

section \<open>Tunnel protocol handler\<close>

lemma on_message_Register_clientId:
  "conn_clientId (fst (on_message dec e c (Register cid) s)) = Some cid"
  by (simp add: Let_def split: prod.splits result.splits)

lemma on_message_Register_connections:
  "connections (snd (on_message dec e c (Register cid) s)) = (connections s)(cid \<mapsto> sock c)"
  by (simp add: Let_def registerClient_def send_def split: prod.splits result.splits)

lemma on_close_dom:
  "dom (connections (on_close e c s)) \<subseteq> dom (connections s) \<and>
   dom (connected_clients (on_close e c s)) \<subseteq> dom (connected_clients s) \<and>
   dom (redis_strings (on_close e c s)) \<subseteq> dom (redis_strings s)"
  by (auto simp: on_close_def unregisterClient_def Let_def split: option.splits if_splits)

lemma receive_keeps_conn:
  "\<forall>m \<in> set ms. \<not> is_register (snd m) \<Longrightarrow> fst (receive dec c ms s) = c"
proof (induction ms arbitrary: s)
  case Nil
  then show ?case by simp
next
  case (Cons m ms)
  obtain e x where m: "m = (e, x)"
    by (cases m) auto
  have "\<not> is_register x"
    using Cons.prems m by simp
  then have "on_message dec e c x s = (c, forward dec e x s)"
    by (cases x) (simp_all add: is_register_def)
  then show ?case
    using Cons by (simp add: m)
qed

text \<open>
  C10, as the code has it: the close handler unregisters the identity that the closure
  variable \<^verbatim>\<open>clientId\<close> holds, which is the one of the connection's most recent register
  message. Connection 1, whatever it did before, receives a register message for the
  non-empty \<open>cid\<close> and after it only frames that are no registrations; another
  connection registers \<open>cid\<close> and is then the session of \<open>cid\<close>; connection 1 closes.
  Afterwards no handle for \<open>cid\<close> is reachable and \<^verbatim>\<open>isClientConnected\<close> is false
  although the other connection has not been closed, and, Redis being reachable at the
  close, the hash field and the status key of \<open>cid\<close> are gone. The states in which the
  frames of connection 1 are handled are arbitrary: other connections may act in between.
\<close>

theorem superseded_close_unregisters:
  assumes "cid \<noteq> []" and "redis_ok e4"
    and "on_message dec e1 c0 (Register cid) s0 = (ca, sa)"
    and "\<forall>m \<in> set ms. \<not> is_register (snd m)"
    and "receive dec ca ms sb = (c1, sc)"
    and "on_message dec e2 c2 (Register cid) s1 = (c2', s2)"
    and "on_close e3 c1 s2 = s3"
  shows "getClientConnection cid s2 = Some (sock c2) \<and> closing c2' = closing c2 \<and>
    getClientConnection cid s3 = None \<and>
    fst (isClientConnected e4 cid s3) = Returned False \<and>
    (redis_ok e3 \<longrightarrow>
       connected_clients s3 cid = None \<and> redis_strings s3 (status_key cid) = None)"
proof -
  have "conn_clientId ca = Some cid"
    using on_message_Register_clientId [of dec e1 c0 cid s0] assms(3) by simp
  moreover have "c1 = ca"
    using receive_keeps_conn [OF assms(4), of dec ca sb] assms(5) by simp
  ultimately have c1: "conn_clientId c1 = Some cid"
    by simp
  have s2: "connections s2 = (connections s1)(cid \<mapsto> sock c2)"
    using on_message_Register_connections [of dec e2 c2 cid s1] assms(6) by simp
  have c2: "closing c2' = closing c2"
    using assms(6) by (auto simp: Let_def split: prod.splits result.splits)
  have s3: "s3 = snd (unregisterClient e3 cid s2)"
    using assms(1,7) c1 by (simp add: on_close_def)
  show ?thesis
    using assms(2) c2
    by (simp add: getClientConnection_def s3 s2 unregisterClient_connections
        unregisterClient_remote isClientConnected_def)
qed

theorem superseded_close_unregisters_witness:
  "getClientConnection ''site-1''
     (snd (on_message base64 (healthy 1 ''u'') (accept 22) (Register ''site-1'')
        (snd (on_message base64 (healthy 0 ''u'') (accept 11) (Register ''site-1'') initial))))
     = Some 22 \<and>
   fst (isClientConnected (healthy 3 ''u'') ''site-1''
     (on_close (healthy 2 ''u'')
        (fst (on_message base64 (healthy 0 ''u'') (accept 11) (Register ''site-1'') initial))
        (snd (on_message base64 (healthy 1 ''u'') (accept 22) (Register ''site-1'')
           (snd (on_message base64 (healthy 0 ''u'') (accept 11) (Register ''site-1'')
              initial)))))) = Returned False"
proof -
  let ?r1 = "on_message base64 (healthy 0 ''u'') (accept 11) (Register ''site-1'') initial"
  let ?r2 = "on_message base64 (healthy 1 ''u'') (accept 22) (Register ''site-1'') (snd ?r1)"
  have a: "''site-1'' \<noteq> []"
    by simp
  have b: "redis_ok (healthy 3 ''u'')"
    by (simp add: healthy_def)
  have c: "?r1 = (fst ?r1, snd ?r1)" and d: "?r2 = (fst ?r2, snd ?r2)"
    by simp_all
  have n: "\<forall>m \<in> set ([] :: (env \<times> message) list). \<not> is_register (snd m)"
    by simp
  have r: "receive base64 (fst ?r1) [] (snd ?r1) = (fst ?r1, snd ?r1)"
    by simp
  have k: "sock (accept 22) = 22"
    by (simp add: accept_def)
  show ?thesis
    using superseded_close_unregisters [OF a b c n r d refl, of "healthy 2 ''u''"]
    unfolding k by blast
qed

text \<open>
  C10 for every connection that registered the identity fails when the connection has
  registered another identity since: connection 11 registers \<open>site-1\<close> and then
  \<open>site-2\<close>, connection 22 registers \<open>site-1\<close>, connection 11 closes. Its close handler
  unregisters \<open>site-2\<close> only, and \<open>site-1\<close> stays connected with the handle 22.
\<close>

theorem later_registration_close_counterexample:
  "getClientConnection ''site-1''
     (on_close (healthy 3 ''u'')
        (fst (on_message base64 (healthy 1 ''u'')
           (fst (on_message base64 (healthy 0 ''u'') (accept 11) (Register ''site-1'') initial))
           (Register ''site-2'')
           (snd (on_message base64 (healthy 0 ''u'') (accept 11) (Register ''site-1'') initial))))
        (snd (on_message base64 (healthy 2 ''u'') (accept 22) (Register ''site-1'')
           (snd (on_message base64 (healthy 1 ''u'')
              (fst (on_message base64 (healthy 0 ''u'') (accept 11) (Register ''site-1'') initial))
              (Register ''site-2'')
              (snd (on_message base64 (healthy 0 ''u'') (accept 11) (Register ''site-1'')
                 initial)))))))
     = Some 22 \<and>
   fst (isClientConnected (healthy 4 ''u'') ''site-1''
     (on_close (healthy 3 ''u'')
        (fst (on_message base64 (healthy 1 ''u'')
           (fst (on_message base64 (healthy 0 ''u'') (accept 11) (Register ''site-1'') initial))
           (Register ''site-2'')
           (snd (on_message base64 (healthy 0 ''u'') (accept 11) (Register ''site-1'') initial))))
        (snd (on_message base64 (healthy 2 ''u'') (accept 22) (Register ''site-1'')
           (snd (on_message base64 (healthy 1 ''u'')
              (fst (on_message base64 (healthy 0 ''u'') (accept 11) (Register ''site-1'') initial))
              (Register ''site-2'')
              (snd (on_message base64 (healthy 0 ''u'') (accept 11) (Register ''site-1'')
                 initial))))))))
     = Returned True"
  by (simp add: getClientConnection_def on_close_def isClientConnected_def registerClient_def
      unregisterClient_def healthy_def initial_def accept_def send_def Let_def)

text \<open>
  C7: under mutual authentication a registration whose \<open>clientId\<close> differs from the
  certificate subject \<open>cn\<close> makes the handler close the connection, and the registry
  (local map, hash and status keys) is as before; the close handler that follows only
  removes entries. So no identity, the claimed one and the certificate's included, has an
  entry afterwards that it did not have before.
\<close>

theorem mtls_mismatch_creates_no_entry:
  assumes "cid \<noteq> cn"
    and "on_message_mtls cn dec e c (Register cid) s = (c1, s1)"
    and "on_close e2 c1 s1 = s2"
  shows "closing c1 \<and>
    connections s1 = connections s \<and> connected_clients s1 = connected_clients s \<and>
    redis_strings s1 = redis_strings s \<and>
    dom (connections s2) \<subseteq> dom (connections s) \<and>
    dom (connected_clients s2) \<subseteq> dom (connected_clients s) \<and>
    dom (redis_strings s2) \<subseteq> dom (redis_strings s)"
proof -
  have c1: "c1 = c\<lparr>conn_clientId := Some cid, closing := True\<rparr>"
    and s1: "s1 = send (sock c) (ErrorOut ''ClientId does not match certificate CN'') s"
    using assms(1,2) by (simp_all add: Let_def)
  have "closing c1"
    by (simp add: c1)
  moreover have "connections s1 = connections s" "connected_clients s1 = connected_clients s"
    "redis_strings s1 = redis_strings s"
    by (simp_all add: s1 send_def)
  moreover have "dom (connections s2) \<subseteq> dom (connections s1)"
    "dom (connected_clients s2) \<subseteq> dom (connected_clients s1)"
    "dom (redis_strings s2) \<subseteq> dom (redis_strings s1)"
    using on_close_dom [of e2 c1 s1] assms(3) by simp_all
  ultimately show ?thesis
    by simp
qed

theorem mtls_mismatch_creates_no_entry_witness:
  "closing (fst (on_message_mtls ''site-2'' base64 (healthy 0 ''u'') (accept 5)
      (Register ''site-3'') initial)) \<and>
   connections (on_close (healthy 9 ''u'')
      (fst (on_message_mtls ''site-2'' base64 (healthy 0 ''u'') (accept 5)
         (Register ''site-3'') initial))
      (snd (on_message_mtls ''site-2'' base64 (healthy 0 ''u'') (accept 5)
         (Register ''site-3'') initial))) = Map.empty \<and>
   connected_clients (on_close (healthy 9 ''u'')
      (fst (on_message_mtls ''site-2'' base64 (healthy 0 ''u'') (accept 5)
         (Register ''site-3'') initial))
      (snd (on_message_mtls ''site-2'' base64 (healthy 0 ''u'') (accept 5)
         (Register ''site-3'') initial))) = Map.empty"
proof -
  let ?r = "on_message_mtls ''site-2'' base64 (healthy 0 ''u'') (accept 5)
      (Register ''site-3'') initial"
  have a: "''site-3'' \<noteq> ''site-2''"
    by simp
  have b: "?r = (fst ?r, snd ?r)"
    by simp
  have i: "dom (connections initial) = {}" "dom (connected_clients initial) = {}"
    by (simp_all add: initial_def)
  show ?thesis
    using mtls_mismatch_creates_no_entry [OF a b refl, of "healthy 9 ''u''"]
    unfolding i by blast
qed

section \<open>Triggering a transfer over HTTP\<close>

lemma post_download_without_clientId:
  "post_download e None s = (Response 400 False (ErrorBody ''clientId is required''), s)"
  "post_download e (Some []) s = (Response 400 False (ErrorBody ''clientId is required''), s)"
  by (simp_all add: post_download_def)

text \<open>
  C8: the handler takes an empty \<^verbatim>\<open>clientId\<close> for a missing one and answers that a
  \<^verbatim>\<open>clientId\<close> is required, so the identity named by a trigger request is a non-empty
  string. When \<^verbatim>\<open>isClientConnected\<close> returns false for it, the trigger answers 404 with
  the not-connected error and the state of the coordinator, its transfer records
  included, is untouched.
\<close>

theorem post_download_not_connected:
  assumes "cid \<noteq> []" and "fst (isClientConnected e cid s) = Returned False"
  shows "post_download e (Some cid) s =
     (Response 404 False (ErrorBody (''Client '' @ cid @ '' is not connected'')), s)"
  using assms by (auto simp: post_download_def isClientConnected_def split: if_splits)

theorem post_download_not_connected_witness:
  "post_download (healthy 3 ''T1'') (Some ''site-9'') initial =
     (Response 404 False (ErrorBody ''Client site-9 is not connected''), initial)"
proof -
  have a: "''site-9'' \<noteq> []"
    by simp
  have b: "fst (isClientConnected (healthy 3 ''T1'') ''site-9'' initial) = Returned False"
    by (simp add: isClientConnected_def healthy_def initial_def)
  show ?thesis
    using post_download_not_connected [OF a b] by simp
qed

section \<open>Transfer coordinator\<close>

subsection \<open>The chunk array\<close>

lemma length_array_set: "length (array_set xs i v) = max (length xs) (Suc i)"
  by (simp add: array_set_def)

lemma nth_array_set:
  "j < max (length xs) (Suc i) \<Longrightarrow>
     array_set xs i v ! j = (if j = i then Some v else if j < length xs then xs ! j else None)"
  by (auto simp: array_set_def nth_append)

lemma Buffer_concat_map_Some: "Buffer_concat (map Some bs) = Some (concat bs)"
  by (induction bs) simp_all

lemma stored_snoc: "stored dec (ms @ [(e, i, dat, l)]) cs = array_set (stored dec ms cs) i (dec dat)"
  by (induction dec ms cs rule: stored.induct) simp_all

lemma length_stored_le:
  "length cs \<le> n \<Longrightarrow> \<forall>m \<in> set ms. fst (snd m) < n \<Longrightarrow> length (stored dec ms cs) \<le> n"
  by (induction dec ms cs rule: stored.induct) (auto simp: length_array_set)

lemma length_stored_mono: "length cs \<le> length (stored dec ms cs)"
proof (induction dec ms cs rule: stored.induct)
  case (2 dec e i dat l ms cs)
  have "length cs \<le> length (array_set cs i (dec dat))"
    by (simp add: length_array_set)
  with 2 show ?case by simp
qed simp

lemma length_stored_gt:
  "m \<in> set ms \<Longrightarrow> fst (snd m) < length (stored dec ms cs)"
proof (induction dec ms cs rule: stored.induct)
  case (2 dec e i dat l ms cs)
  show ?case
  proof (cases "m = (e, i, dat, l)")
    case True
    have "i < length (array_set cs i (dec dat))"
      by (simp add: length_array_set)
    also have "\<dots> \<le> length (stored dec ms (array_set cs i (dec dat)))"
      by (rule length_stored_mono)
    finally show ?thesis using True by simp
  next
    case False
    with 2 show ?thesis by simp
  qed
qed simp

lemma nth_stored:
  assumes "\<forall>m \<in> set ms. fst (snd (snd m)) = ps ! fst (snd m)"
    and "j < length (stored dec ms cs)"
  shows "stored dec ms cs ! j =
     (if j \<in> (\<lambda>m. fst (snd m)) ` set ms then Some (dec (ps ! j))
      else if j < length cs then cs ! j else None)"
  using assms
proof (induction ms arbitrary: j rule: rev_induct)
  case Nil
  then show ?case by simp
next
  case (snoc m ms)
  obtain e i dat l where m: "m = (e, i, dat, l)"
    by (cases m) auto
  have dat: "dat = ps ! i"
    using snoc.prems(1) m by simp
  have j: "j < max (length (stored dec ms cs)) (Suc i)"
    using snoc.prems(2) by (simp add: m stored_snoc length_array_set)
  have ih: "j < length (stored dec ms cs) \<Longrightarrow> stored dec ms cs ! j =
     (if j \<in> (\<lambda>m. fst (snd m)) ` set ms then Some (dec (ps ! j))
      else if j < length cs then cs ! j else None)"
    using snoc.IH [of j] snoc.prems(1) by simp
  have mono: "length cs \<le> length (stored dec ms cs)"
    by (rule length_stored_mono)
  show ?case
  proof (cases "j = i")
    case True
    then show ?thesis
      using j by (simp add: m stored_snoc nth_array_set dat)
  next
    case False
    show ?thesis
    proof (cases "j < length (stored dec ms cs)")
      case True
      then show ?thesis
        using j False ih by (simp add: m stored_snoc nth_array_set)
    next
      case False
      have notin: "j \<notin> (\<lambda>m. fst (snd m)) ` set ms"
        using False length_stored_gt [of _ ms dec cs] by force
      have "\<not> j < length cs"
        using False mono by simp
      then show ?thesis
        using j \<open>j \<noteq> i\<close> False notin by (simp add: m stored_snoc nth_array_set)
    qed
  qed
qed

lemma stored_complete:
  assumes "\<forall>m \<in> set ms. fst (snd (snd m)) = ps ! fst (snd m)"
    and "(\<lambda>m. fst (snd m)) ` set ms = {..<length ps}"
  shows "stored dec ms [] = map (\<lambda>p. Some (dec p)) ps"
proof (rule nth_equalityI)
  have le: "length (stored dec ms []) \<le> length ps"
    using assms(2) by (intro length_stored_le) auto
  have ge: "length ps \<le> length (stored dec ms [])"
  proof (cases "length ps")
    case 0
    then show ?thesis by simp
  next
    case (Suc k)
    then have "k \<in> (\<lambda>m. fst (snd m)) ` set ms"
      using assms(2) by simp
    then obtain m where "m \<in> set ms" "fst (snd m) = k"
      by auto
    then have "k < length (stored dec ms [])"
      using length_stored_gt [of m ms dec "[]"] by simp
    then show ?thesis using Suc by simp
  qed
  show len: "length (stored dec ms []) = length (map (\<lambda>p. Some (dec p)) ps)"
    using le ge by simp
  fix j
  assume "j < length (stored dec ms [])"
  then show "stored dec ms [] ! j = map (\<lambda>p. Some (dec p)) ps ! j"
    using nth_stored [OF assms(1), of j dec "[]"] assms(2) len by simp
qed

lemma Buffer_concat_complete: "Buffer_concat (map (\<lambda>p. Some (dec p)) ps) = Some (concat (map dec ps))"
  using Buffer_concat_map_Some [of "map dec ps"] by (simp add: comp_def)

subsection \<open>Fields that the operations keep\<close>

lemma handleError_fields:
  assumes "downloads s did = Some d"
  shows "\<exists>d1. downloads (snd (handleError e did msg s)) did = Some d1 \<and> status d1 = Failed \<and>
     receivedChunks d1 = receivedChunks d \<and> progress d1 = progress d \<and>
     totalChunks d1 = totalChunks d \<and> chunks d1 = chunks d \<and>
     files (snd (handleError e did msg s)) = files s"
  using assms by (simp add: handleError_def Let_def)

lemma completeDownload_fields:
  assumes "downloads s did = Some d"
  shows "\<exists>d1. downloads (snd (completeDownload e did s)) did = Some d1 \<and>
     (status d1 = Completed \<or> status d1 = Failed) \<and>
     receivedChunks d1 = receivedChunks d \<and> progress d1 = progress d \<and>
     totalChunks d1 = totalChunks d"
  using assms
  by (auto simp: completeDownload_def handleError_def Let_def split: option.splits)

lemma handleChunk_unflagged:
  assumes "downloads s did = Some d" and "chunks d = Some cs"
  shows "handleChunk dec e did i dat False s =
     (Returned (),
      s\<lparr>downloads := (downloads s)(did \<mapsto>
           d\<lparr>chunks := Some (array_set cs i (dec dat)),
             receivedChunks := Some (received_count d + 1),
             progress := progress_of (received_count d + 1) (totalChunks d)\<rparr>)\<rparr>)"
  using assms by (simp add: handleChunk_def received_count_def Let_def)

lemma handleChunk_fields:
  assumes "downloads s did = Some d" and "chunks d = Some cs"
  shows "\<exists>d1. downloads (snd (handleChunk dec e did i dat l s)) did = Some d1 \<and>
     receivedChunks d1 = Some (received_count d + 1) \<and>
     progress d1 = progress_of (received_count d + 1) (totalChunks d) \<and>
     totalChunks d1 = totalChunks d \<and>
     (if l then status d1 = Completed \<or> status d1 = Failed else status d1 = status d)"
proof (cases l)
  case False
  then show ?thesis
    using handleChunk_unflagged [OF assms, of dec e i dat] by simp
next
  case True
  define d0 where "d0 = d\<lparr>chunks := Some (array_set cs i (dec dat)),
             receivedChunks := Some (received_count d + 1),
             progress := progress_of (received_count d + 1) (totalChunks d)\<rparr>"
  define s0 where "s0 = s\<lparr>downloads := (downloads s)(did \<mapsto> d0)\<rparr>"
  have h: "handleChunk dec e did i dat True s = completeDownload e did s0"
    using assms by (simp add: handleChunk_def received_count_def Let_def d0_def s0_def)
  have "downloads s0 did = Some d0"
    by (simp add: s0_def)
  from completeDownload_fields [OF this, of e] show ?thesis
    using True by (auto simp: h d0_def)
qed

lemma handleChunk_deleted:
  assumes "downloads s did = Some d" and "chunks d = None"
  shows "handleChunk dec e did i dat l s = (Threw TypeError, s)"
  using assms by (simp add: handleChunk_def)

lemma handleChunk_count:
  assumes "downloads s did = Some d"
  shows "\<exists>d1. downloads (snd (handleChunk dec e did i dat l s)) did = Some d1 \<and>
     received_count d1 \<le> received_count d + 1 \<and> totalChunks d1 = totalChunks d"
proof (cases "chunks d")
  case None
  then show ?thesis
    using assms by (simp add: handleChunk_deleted)
next
  case (Some cs)
  from handleChunk_fields [OF assms Some, of dec e i dat l] show ?thesis
    by (auto simp: received_count_def)
qed

lemma receive_chunk_frames_Cons:
  "receive dec c (chunk_frames did ((e, i, dat, l) # ms)) s =
     receive dec c (chunk_frames did ms) (snd (handleChunk dec e did i dat l s))"
  by (simp add: chunk_frames_def)

lemma receive_chunk_frames_Nil: "receive dec c (chunk_frames did []) s = (c, s)"
  by (simp add: chunk_frames_def)

lemma receive_count:
  assumes "downloads s did = Some d"
  shows "\<exists>d1. downloads (snd (receive dec c (chunk_frames did ms) s)) did = Some d1 \<and>
     received_count d1 \<le> received_count d + length ms \<and> totalChunks d1 = totalChunks d"
  using assms
proof (induction ms arbitrary: s d)
  case Nil
  then show ?case by (simp add: receive_chunk_frames_Nil)
next
  case (Cons m ms)
  obtain e i dat l where m: "m = (e, i, dat, l)"
    by (cases m) auto
  from handleChunk_count [OF Cons.prems, of dec e i dat l]
  obtain d0 where d0: "downloads (snd (handleChunk dec e did i dat l s)) did = Some d0"
    "received_count d0 \<le> received_count d + 1" "totalChunks d0 = totalChunks d"
    by blast
  from Cons.IH [OF d0(1)] d0(2,3) show ?case
    unfolding m receive_chunk_frames_Cons by fastforce
qed

lemma receive_unflagged:
  assumes "downloads s did = Some d" and "chunks d = Some cs"
    and "\<forall>m \<in> set ms. \<not> snd (snd (snd m))"
  shows "\<exists>r p. receive dec c (chunk_frames did ms) s =
     (c, s\<lparr>downloads := (downloads s)(did \<mapsto>
            d\<lparr>chunks := Some (stored dec ms cs), receivedChunks := r, progress := p\<rparr>)\<rparr>)"
  using assms
proof (induction ms arbitrary: s d cs)
  case Nil
  have "d\<lparr>chunks := Some cs, receivedChunks := receivedChunks d, progress := progress d\<rparr> = d"
    using Nil.prems(2) by simp
  moreover have "s\<lparr>downloads := (downloads s)(did \<mapsto> d)\<rparr> = s"
    using Nil.prems(1) by (simp add: map_upd_triv)
  ultimately show ?case
    unfolding receive_chunk_frames_Nil stored.simps by (metis)
next
  case (Cons m ms)
  obtain e i dat l where m: "m = (e, i, dat, l)"
    by (cases m) auto
  have l: "\<not> l"
    using Cons.prems(3) m by simp
  define d0 where "d0 = d\<lparr>chunks := Some (array_set cs i (dec dat)),
             receivedChunks := Some (received_count d + 1),
             progress := progress_of (received_count d + 1) (totalChunks d)\<rparr>"
  define s0 where "s0 = s\<lparr>downloads := (downloads s)(did \<mapsto> d0)\<rparr>"
  have step: "snd (handleChunk dec e did i dat l s) = s0"
    using handleChunk_unflagged [OF Cons.prems(1,2), of dec e i dat] l
    by (simp add: s0_def d0_def)
  have a: "downloads s0 did = Some d0" and b: "chunks d0 = Some (array_set cs i (dec dat))"
    by (simp_all add: s0_def d0_def)
  have c: "\<forall>m \<in> set ms. \<not> snd (snd (snd m))"
    using Cons.prems(3) by simp
  from Cons.IH [OF a b c] obtain r p where
    "receive dec c (chunk_frames did ms) s0 =
     (c, s0\<lparr>downloads := (downloads s0)(did \<mapsto>
            d0\<lparr>chunks := Some (stored dec ms (array_set cs i (dec dat))),
               receivedChunks := r, progress := p\<rparr>)\<rparr>)"
    by blast
  then have "receive dec c (chunk_frames did (m # ms)) s =
     (c, s\<lparr>downloads := (downloads s)(did \<mapsto>
            d\<lparr>chunks := Some (stored dec (m # ms) cs), receivedChunks := r, progress := p\<rparr>)\<rparr>)"
    unfolding m receive_chunk_frames_Cons step by (simp add: s0_def d0_def)
  then show ?case by blast
qed

subsection \<open>Assembly, progress, count and status\<close>

lemma handleChunk_last:
  assumes "downloads s did = Some d" and "chunks d = Some cs"
    and "Buffer_concat (array_set cs i (dec dat)) = Some fileData" and "fs_ok e"
  shows "files (snd (handleChunk dec e did i dat True s))
       (path_join e (downloadDir e) (clientId d @ ''_'' @ template (fileName d))) = Some fileData \<and>
     (\<exists>d1. downloads (snd (handleChunk dec e did i dat True s)) did = Some d1 \<and>
        status d1 = (if redis_ok e then Completed else Failed))"
  using assms
  by (simp add: handleChunk_def completeDownload_def handleError_def Let_def)

lemma started_T1:
  "downloads (started fsize n) ''T1'' =
     Some \<lparr>downloadId = ''T1'', clientId = ''site-1'', status = Downloading, startTime = 1,
           chunks = Some [], progress = Finite 0, fileName = Some ''sample-file.txt'',
           fileSize = Some fsize, totalChunks = Some n, receivedChunks = Some 0,
           endTime = None, filePath = None, duration = None, error = None\<rparr>"
  by (simp add: started_def initializeDownload_def initiateDownload_def healthy_def initial_def
      Let_def)

lemma base64_examples:
  "base64 ''aGVs'' = [104, 101, 108]"
  "base64 ''bG8g'' = [108, 111, 32]"
  "base64 ''d29ybGQ='' = [119, 111, 114, 108, 100]"
  by (simp_all add: base64_def base64_alphabet_def sextet_def)

text \<open>
  The double-precision product matters: 29 chunks of 200 are 14.5 per cent exactly, but
  \<^verbatim>\<open>(29 / 200) * 100\<close> is \<^verbatim>\<open>14.499999999999998\<close> in binary64 and rounds to 14.
\<close>

lemma progress_examples:
  "Math_round (fl (fl (of_nat (0 + 1) / of_nat 3) * 100)) = 33"
  "progress_of 2 (Some 3) = Finite 67"
  "progress_of 29 (Some 200) = Finite 14"
  by code_simp+

lemma apply_op_status:
  assumes "downloads s did = Some d"
  shows "\<exists>d1. downloads (apply_op dec e did op s) did = Some d1 \<and>
     (case op of
        OnMetadata name fsize n \<Rightarrow> status d1 = Downloading
      | OnChunk i dat l \<Rightarrow>
          if l \<and> chunks d \<noteq> None then status d1 = Completed \<or> status d1 = Failed
          else status d1 = status d
      | Complete \<Rightarrow> status d1 = Completed \<or> status d1 = Failed
      | Fail msg \<Rightarrow> status d1 = Failed)"
proof (cases op)
  case (OnMetadata name fsize n)
  then show ?thesis
    using assms by (simp add: initializeDownload_def Let_def)
next
  case (OnChunk i dat l)
  show ?thesis
  proof (cases "chunks d")
    case None
    then show ?thesis
      using assms OnChunk by (simp add: handleChunk_deleted)
  next
    case (Some cs)
    from handleChunk_fields [OF assms Some, of dec e i dat l] show ?thesis
      using OnChunk Some by auto
  qed
next
  case Complete
  from completeDownload_fields [OF assms, of e] show ?thesis
    using Complete by auto
next
  case (Fail msg)
  from handleError_fields [OF assms, of e msg] show ?thesis
    using Fail by auto
qed

text \<open>
  C1, as the code has it: a known transfer whose metadata has been received (\<open>totalChunks\<close> is the number of
  payloads \<open>ps\<close>) and which holds no chunk yet receives chunk messages in any arrival
  order. The messages carry every index below \<open>totalChunks\<close> exactly once, each with the
  payload of its index; the message that arrives last is flagged \<^verbatim>\<open>isLast\<close> and no
  message before it is.
  Then, the file write succeeding, the file written by the completion is the
  concatenation of the decoded payloads in index order, and the transfer is completed
  (failed if the Redis write after the file write is rejected).
\<close>

theorem assembly_in_index_order:
  assumes "downloads s did = Some d" and "chunks d = Some []"
    and "totalChunks d = Some (length ps)"
    and "distinct (map chunk_index (ms @ [(e, i, dat, True)]))"
    and "chunk_index ` set (ms @ [(e, i, dat, True)]) = {..<length ps}"
    and "\<forall>m \<in> set (ms @ [(e, i, dat, True)]). chunk_data m = ps ! chunk_index m"
    and "\<forall>m \<in> set ms. \<not> chunk_last m"
    and "fs_ok e"
    and "receive dec c (chunk_frames did (ms @ [(e, i, dat, True)])) s = (c1, s1)"
  shows "files s1 (path_join e (downloadDir e) (clientId d @ ''_'' @ template (fileName d))) =
       Some (concat (map dec ps)) \<and>
     (\<exists>d1. downloads s1 did = Some d1 \<and> status d1 = (if redis_ok e then Completed else Failed))"
proof -
  have un: "\<forall>m \<in> set ms. \<not> snd (snd (snd m))"
    using assms(7) by (simp add: chunk_last_def)
  from receive_unflagged [OF assms(1,2) un, of dec c]
  obtain r p where run: "receive dec c (chunk_frames did ms) s =
     (c, s\<lparr>downloads := (downloads s)(did \<mapsto>
            d\<lparr>chunks := Some (stored dec ms []), receivedChunks := r, progress := p\<rparr>)\<rparr>)"
    by blast
  define d0 where "d0 = d\<lparr>chunks := Some (stored dec ms []), receivedChunks := r, progress := p\<rparr>"
  define s0 where "s0 = s\<lparr>downloads := (downloads s)(did \<mapsto> d0)\<rparr>"
  have split: "receive dec c (xs @ ys) s = receive dec (fst (receive dec c xs s)) ys (snd (receive dec c xs s))"
    for xs ys c s
    by (induction xs arbitrary: c s) (auto split: prod.splits)
  have s1: "s1 = snd (handleChunk dec e did i dat True s0)"
    using assms(9) run
    by (simp add: chunk_frames_def split s0_def d0_def)
  have all: "stored dec (ms @ [(e, i, dat, True)]) [] = map (\<lambda>p. Some (dec p)) ps"
    using assms(5,6) by (intro stored_complete) (simp_all add: chunk_index_def chunk_data_def)
  have cat: "Buffer_concat (array_set (stored dec ms []) i (dec dat)) = Some (concat (map dec ps))"
    using all by (simp add: stored_snoc Buffer_concat_complete)
  have a: "downloads s0 did = Some d0" and b: "chunks d0 = Some (stored dec ms [])"
    by (simp_all add: s0_def d0_def)
  from handleChunk_last [of s0 did d0 "stored dec ms []" i dec dat "concat (map dec ps)" e]
    a b cat assms(8)
  show ?thesis
    by (simp add: s1 d0_def)
qed

theorem assembly_in_index_order_witness:
  "files (snd (receive base64 (accept 7)
       (chunk_frames ''T1''
          [(healthy 3 ''x'', 1, ''bG8g'', False), (healthy 4 ''x'', 0, ''aGVs'', False),
           (healthy 5 ''x'', 2, ''d29ybGQ='', True)])
       (started 11 3)))
     ''/app/downloads/site-1_sample-file.txt'' =
   Some [104, 101, 108, 108, 111, 32, 119, 111, 114, 108, 100]"
proof -
  let ?d = "\<lparr>downloadId = ''T1'', clientId = ''site-1'', status = Downloading, startTime = 1,
           chunks = Some [], progress = Finite 0, fileName = Some ''sample-file.txt'',
           fileSize = Some 11, totalChunks = Some 3, receivedChunks = Some 0,
           endTime = None, filePath = None, duration = None, error = None\<rparr>"
  let ?ps = "[''aGVs'', ''bG8g'', ''d29ybGQ='']"
  let ?ms = "[(healthy 3 ''x'', 1::nat, ''bG8g'', False), (healthy 4 ''x'', 0, ''aGVs'', False)]"
  let ?r = "receive base64 (accept 7)
       (chunk_frames ''T1'' (?ms @ [(healthy 5 ''x'', 2, ''d29ybGQ='', True)])) (started 11 3)"
  have h1: "downloads (started 11 3) ''T1'' = Some ?d"
    by (rule started_T1)
  have h2: "chunks ?d = Some []"
    by simp
  have h3: "totalChunks ?d = Some (length ?ps)"
    by simp
  have h4: "distinct (map chunk_index (?ms @ [(healthy 5 ''x'', 2, ''d29ybGQ='', True)]))"
    by (simp add: chunk_index_def)
  have h5: "chunk_index ` set (?ms @ [(healthy 5 ''x'', 2, ''d29ybGQ='', True)]) = {..<length ?ps}"
    by (auto simp: chunk_index_def)
  have h6: "\<forall>m \<in> set (?ms @ [(healthy 5 ''x'', 2, ''d29ybGQ='', True)]).
      chunk_data m = ?ps ! chunk_index m"
    by (simp add: chunk_index_def chunk_data_def)
  have h7: "\<forall>m \<in> set ?ms. \<not> chunk_last m"
    by (simp add: chunk_last_def)
  have h8: "fs_ok (healthy 5 ''x'')"
    by (simp add: healthy_def)
  have h9: "?r = (fst ?r, snd ?r)"
    by simp
  from assembly_in_index_order [OF h1 h2 h3 h4 h5 h6 h7 h8 h9] show ?thesis
    by (simp add: base64_examples template_def healthy_def)
qed

text \<open>
  C1 without the condition on the earlier messages fails: every message flagged
  \<^verbatim>\<open>isLast\<close> starts the completion. The three chunks arrive in index order, the first
  and the last flagged: the first writes the file from chunk 0 alone and deletes the
  chunk array, the other two throw, and the file stays chunk 0.
\<close>

theorem early_flag_counterexample:
  "files (snd (receive base64 (accept 7)
       (chunk_frames ''T1''
          [(healthy 3 ''x'', 0, ''aGVs'', True), (healthy 4 ''x'', 1, ''bG8g'', False),
           (healthy 5 ''x'', 2, ''d29ybGQ='', True)])
       (started 11 3)))
     ''/app/downloads/site-1_sample-file.txt'' = Some [104, 101, 108] \<and>
   concat (map base64 [''aGVs'', ''bG8g'', ''d29ybGQ='']) =
     [104, 101, 108, 108, 111, 32, 119, 111, 114, 108, 100]"
  by (simp add: chunk_frames_def handleChunk_def completeDownload_def started_T1 array_set_def
      healthy_def base64_examples template_def Let_def)

text \<open>
  C4, as the code has it: on a known transfer that still holds its chunk array and whose
  \<open>totalChunks\<close> is a positive number \<open>n\<close>, \<^verbatim>\<open>handleChunk\<close> increments
  \<open>receivedChunks\<close> and then sets \<open>progress\<close> to
  \<^verbatim>\<open>Math.round((receivedChunks / totalChunks) * 100)\<close>: the double-precision quotient
  and product, rounded to the nearest integer, halves upwards.
\<close>

theorem handleChunk_progress_rounds:
  assumes "downloads s did = Some d" and "chunks d = Some cs"
    and "totalChunks d = Some n" and "0 < n"
    and "handleChunk dec e did i dat l s = (x, s1)"
  shows "\<exists>d1. downloads s1 did = Some d1 \<and>
     receivedChunks d1 = Some (received_count d + 1) \<and>
     progress d1 = Finite (Math_round (fl (fl (of_nat (received_count d + 1) / of_nat n) * 100)))"
  using handleChunk_fields [OF assms(1,2), of dec e i dat l] assms(3,4,5)
  by (auto simp: progress_of_def)

theorem handleChunk_progress_rounds_witness:
  "\<exists>d1. downloads (snd (handleChunk base64 (healthy 3 ''x'') ''T1'' 0 ''aGVs'' False (started 11 3)))
          ''T1'' = Some d1 \<and>
     receivedChunks d1 = Some 1 \<and> progress d1 = Finite 33"
proof -
  let ?d = "\<lparr>downloadId = ''T1'', clientId = ''site-1'', status = Downloading, startTime = 1,
           chunks = Some [], progress = Finite 0, fileName = Some ''sample-file.txt'',
           fileSize = Some 11, totalChunks = Some 3, receivedChunks = Some 0,
           endTime = None, filePath = None, duration = None, error = None\<rparr>"
  let ?r = "handleChunk base64 (healthy 3 ''x'') ''T1'' 0 ''aGVs'' False (started 11 3)"
  have h1: "downloads (started 11 3) ''T1'' = Some ?d"
    by (rule started_T1)
  have h2: "chunks ?d = Some []" and h3: "totalChunks ?d = Some 3" and h4: "(0::nat) < 3"
    by simp_all
  have h5: "?r = (fst ?r, snd ?r)"
    by simp
  have rc: "received_count ?d = 0"
    by (simp add: received_count_def)
  from handleChunk_progress_rounds [OF h1 h2 h3 h4 h5] show ?thesis
    unfolding rc progress_examples by simp
qed

text \<open>
  C4 with \<open>floor\<close> fails at the second of three chunks: the count is 2, the progress is
  67, and the floor of \<open>2 / 3 * 100\<close> is 66.
\<close>

theorem progress_floor_counterexample:
  "map_option receivedChunks
     (downloads (snd (handleChunk base64 (healthy 4 ''x'') ''T1'' 1 ''bG8g'' False
        (snd (handleChunk base64 (healthy 3 ''x'') ''T1'' 0 ''aGVs'' False (started 11 3)))))
       ''T1'') = Some (Some 2) \<and>
   map_option progress
     (downloads (snd (handleChunk base64 (healthy 4 ''x'') ''T1'' 1 ''bG8g'' False
        (snd (handleChunk base64 (healthy 3 ''x'') ''T1'' 0 ''aGVs'' False (started 11 3)))))
       ''T1'') = Some (Finite 67) \<and>
   \<lfloor>(2::rat) / 3 * 100\<rfloor> = (66::int)"
proof -
  have "\<lfloor>(2::rat) / 3 * 100\<rfloor> = (66::int)"
    by code_simp
  moreover have "(1::nat) + 1 = 2"
    by simp
  ultimately show ?thesis
    by (simp add: handleChunk_def started_T1 Let_def progress_examples del: One_nat_def)
qed

text \<open>
  C6, as the code has it: \<^verbatim>\<open>handleChunk\<close> counts every chunk message it stores, so
  after the metadata the count is at most the number of chunk messages handled. It
  stays within \<open>totalChunks\<close> for every sequence of chunk messages in which no index
  occurs twice and every index is below \<open>totalChunks\<close>.
\<close>

theorem receivedChunks_within_total:
  assumes "downloads s did = Some d" and "receivedChunks d = Some 0"
    and "totalChunks d = Some n"
    and "distinct (map chunk_index ms)" and "\<forall>m \<in> set ms. chunk_index m < n"
    and "receive dec c (chunk_frames did ms) s = (c1, s1)"
  shows "\<exists>d1. downloads s1 did = Some d1 \<and> totalChunks d1 = Some n \<and>
     received_count d1 \<le> length ms \<and> received_count d1 \<le> n"
proof -
  have "length ms = card (chunk_index ` set ms)"
    using assms(4) by (metis distinct_card length_map set_map)
  also have "\<dots> \<le> card {..<n}"
    using assms(5) by (intro card_mono) auto
  finally have len: "length ms \<le> n"
    by simp
  from receive_count [OF assms(1), of dec c ms] assms(2,3,6) len show ?thesis
    by (auto simp: received_count_def)
qed

theorem receivedChunks_within_total_witness:
  "\<exists>d1. downloads (snd (receive base64 (accept 7)
       (chunk_frames ''T1'' [(healthy 3 ''x'', 1, ''bG8g'', False), (healthy 4 ''x'', 0, ''aGVs'', False)])
       (started 11 3))) ''T1'' = Some d1 \<and> totalChunks d1 = Some 3 \<and> received_count d1 \<le> 3"
proof -
  let ?d = "\<lparr>downloadId = ''T1'', clientId = ''site-1'', status = Downloading, startTime = 1,
           chunks = Some [], progress = Finite 0, fileName = Some ''sample-file.txt'',
           fileSize = Some 11, totalChunks = Some 3, receivedChunks = Some 0,
           endTime = None, filePath = None, duration = None, error = None\<rparr>"
  let ?ms = "[(healthy 3 ''x'', 1::nat, ''bG8g'', False), (healthy 4 ''x'', 0, ''aGVs'', False)]"
  let ?r = "receive base64 (accept 7) (chunk_frames ''T1'' ?ms) (started 11 3)"
  have h1: "downloads (started 11 3) ''T1'' = Some ?d"
    by (rule started_T1)
  have h2: "receivedChunks ?d = Some 0" and h3: "totalChunks ?d = Some 3"
    by simp_all
  have h4: "distinct (map chunk_index ?ms)" and h5: "\<forall>m \<in> set ?ms. chunk_index m < 3"
    by (simp_all add: chunk_index_def)
  have h6: "?r = (fst ?r, snd ?r)"
    by simp
  from receivedChunks_within_total [OF h1 h2 h3 h4 h5 h6] show ?thesis
    by blast
qed

text \<open>
  C6 including an index that arrives more than once fails: a transfer of one chunk that
  receives chunk 0 twice has \<open>receivedChunks = 2\<close> and \<open>totalChunks = 1\<close>.
\<close>

theorem duplicate_chunk_counterexample:
  "map_option receivedChunks
     (downloads (snd (receive base64 (accept 7)
        (chunk_frames ''T1'' [(healthy 3 ''x'', 0, ''aGk='', False), (healthy 4 ''x'', 0, ''aGk='', False)])
        (started 2 1))) ''T1'') = Some (Some 2) \<and>
   map_option totalChunks
     (downloads (snd (receive base64 (accept 7)
        (chunk_frames ''T1'' [(healthy 3 ''x'', 0, ''aGk='', False), (healthy 4 ''x'', 0, ''aGk='', False)])
        (started 2 1))) ''T1'') = Some (Some 1)"
  by (simp add: chunk_frames_def handleChunk_def started_T1 Let_def)

text \<open>
  C2, as the code has it: on a record that is initiated or downloading, each of the four
  operations leaves the status or moves it forward along
  \<open>initiated \<rightarrow> downloading \<rightarrow> {completed, failed}\<close>. The operations do not look at
  the current status, so the terminal states are not protected.
\<close>

theorem status_forward_until_terminal:
  assumes "downloads s did = Some d" and "status d = Initiated \<or> status d = Downloading"
  shows "\<exists>d1. downloads (apply_op dec e did op s) did = Some d1 \<and>
     stage (status d) \<le> stage (status d1)"
proof -
  from apply_op_status [OF assms(1), of dec e op]
  obtain d1 where d1: "downloads (apply_op dec e did op s) did = Some d1"
    and st: "case op of
        OnMetadata name fsize n \<Rightarrow> status d1 = Downloading
      | OnChunk i dat l \<Rightarrow>
          if l \<and> chunks d \<noteq> None then status d1 = Completed \<or> status d1 = Failed
          else status d1 = status d
      | Complete \<Rightarrow> status d1 = Completed \<or> status d1 = Failed
      | Fail msg \<Rightarrow> status d1 = Failed"
    by blast
  have "stage (status d) \<le> stage (status d1)"
    using st assms(2) by (cases op) (auto split: if_splits)
  with d1 show ?thesis by blast
qed

theorem status_forward_until_terminal_witness:
  "\<exists>d1. downloads (apply_op base64 (healthy 3 ''x'') ''T1'' (OnChunk 0 ''aGk='' True) (started 2 1)) ''T1''
        = Some d1 \<and> stage Downloading \<le> stage (status d1)"
proof -
  let ?d = "\<lparr>downloadId = ''T1'', clientId = ''site-1'', status = Downloading, startTime = 1,
           chunks = Some [], progress = Finite 0, fileName = Some ''sample-file.txt'',
           fileSize = Some 2, totalChunks = Some 1, receivedChunks = Some 0,
           endTime = None, filePath = None, duration = None, error = None\<rparr>"
  have h1: "downloads (started 2 1) ''T1'' = Some ?d"
    by (rule started_T1)
  have h2: "status ?d = Initiated \<or> status ?d = Downloading"
    by simp
  from status_forward_until_terminal [OF h1 h2, of base64 "healthy 3 ''x''" "OnChunk 0 ''aGk='' True"] show ?thesis
    by simp
qed

text \<open>
  C2 for terminal states fails: the transfer of one chunk is completed by its last chunk,
  and a metadata message for it then sets the status back to downloading.
\<close>

theorem terminal_status_counterexample:
  "map_option status
     (downloads (apply_op base64 (healthy 3 ''x'') ''T1'' (OnChunk 0 ''aGk='' True) (started 2 1)) ''T1'')
     = Some Completed \<and>
   map_option status
     (downloads (apply_op base64 (healthy 4 ''x'') ''T1'' (OnMetadata ''sample-file.txt'' 2 1)
        (apply_op base64 (healthy 3 ''x'') ''T1'' (OnChunk 0 ''aGk='' True) (started 2 1))) ''T1'')
     = Some Downloading"
  by (simp add: handleChunk_def completeDownload_def initializeDownload_def started_T1 Let_def
      array_set_def healthy_def)

end
